theory Spec2Isabelle
  imports Complex_Main
begin

section \<open>Wealth analytics dashboard: the four calculators of app.py\<close>

text \<open>
  The script app.py computes four projections from widget inputs: the SIP projector
  (tab 1), the Monte Carlo simulator (tab 2), the cost of delay (tab 3) and the goal
  planner (tab 4). Each tab is embedded as a function of the widget values.

  Python \<open>int\<close> is \<open>int\<close>. Python \<open>float\<close> is \<open>real\<close>: the arithmetic is the exact
  one, so rounding and NaN are outside this model. What is inside it: the
  order of the operations, the loops, and every exception that exact arithmetic can
  raise (division by zero, a zero base under a negative exponent, indexing an empty
  frame, the minimum of an empty list, a bad argument to the sampler). Tabs 1, 2 and 4
  take their rates and durations from bounded widgets, which keep every power far
  below the largest float. Tab 3 takes its rate from an unbounded number input: there
  the overflow of the power, which Python raises as OverflowError, is part of the
  model as well.
\<close>

subsection \<open>Python arithmetic that can raise\<close>

datatype py_error = ZeroDivisionError | IndexError | ValueError | OverflowError

text \<open>\<open>a / b\<close> on floats: raises ZeroDivisionError when \<open>b\<close> is zero.\<close>

definition py_div :: "real \<Rightarrow> real \<Rightarrow> py_error + real" where
  "py_div a b = (if b = 0 then Inl ZeroDivisionError else Inr (a / b))"

text \<open>\<open>x ** n\<close> with a float base and an int exponent: a zero base under a negative
  exponent raises ZeroDivisionError.\<close>

definition py_pow :: "real \<Rightarrow> int \<Rightarrow> py_error + real" where
  "py_pow x n =
     (if 0 \<le> n then Inr (x ^ nat n)
      else if x = 0 then Inl ZeroDivisionError
      else Inr (1 / x ^ nat (- n)))"

subsection \<open>The annuity expression of tabs 3 and 4\<close>

text \<open>
  The script writes the same expression three times (corpus_a, corpus_b,
  future_savings):
  \<^verbatim>\<open>amount * ((((1 + rate)**months) - 1) / rate) * (1 + rate)\<close>
  with \<open>amount\<close> one of delay_inv and monthly_savings_goal. It is embedded once.
  The power is evaluated first, then the division.
\<close>

definition annuity_due :: "real \<Rightarrow> real \<Rightarrow> int \<Rightarrow> py_error + real" where
  "annuity_due amount rate months =
     (case py_pow (1 + rate) months of
        Inl e \<Rightarrow> Inl e
      | Inr p \<Rightarrow>
          (case py_div (p - 1) rate of
             Inl e \<Rightarrow> Inl e
           | Inr q \<Rightarrow> Inr (amount * q * (1 + rate))))"

subsection \<open>Tab 1: SIP projector\<close>

record projection_point =
  Month :: int
  Year :: real
  Invested :: int
  Portfolio_Value :: real
  Real_Value :: real

record sip_state =
  total_invested :: int
  current_value :: real
  data :: "projection_point list"

text \<open>The body of \<^verbatim>\<open>for m in range(1, months + 1)\<close>. The divisor of the real value
  is a power, with a positive exponent, of \<open>1 + inflation_rate/100/12\<close>.\<close>

definition sip_step :: "int \<Rightarrow> real \<Rightarrow> real \<Rightarrow> nat \<Rightarrow> sip_state \<Rightarrow> sip_state" where
  "sip_step monthly_inv monthly_rate inflation_rate m st =
     (let total_invested' = total_invested st + monthly_inv;
          interest = current_value st * monthly_rate;
          current_value' = current_value st + (of_int monthly_inv + interest);
          real_value = current_value' / ((1 + (inflation_rate / 100 / 12)) ^ m)
      in \<lparr>total_invested = total_invested',
          current_value = current_value',
          data = data st @
            [\<lparr>Month = int m, Year = real m / 12, Invested = total_invested',
              Portfolio_Value = current_value', Real_Value = real_value\<rparr>]\<rparr>)"

definition sip_init :: sip_state where
  "sip_init = \<lparr>total_invested = 0, current_value = 0, data = []\<rparr>"

text \<open>The loop after \<open>n\<close> months; \<open>range(1, months + 1)\<close> is empty when \<open>months \<le> 0\<close>.\<close>

definition sip_loop :: "int \<Rightarrow> real \<Rightarrow> real \<Rightarrow> nat \<Rightarrow> sip_state" where
  "sip_loop monthly_inv monthly_rate inflation_rate n =
     fold (sip_step monthly_inv monthly_rate inflation_rate) [1..<Suc n] sip_init"

record sip_result =
  points :: "projection_point list"
  final_val :: real
  final_invested :: int
  total_gains :: real
  tax_amount :: real
  post_tax_value :: real

text \<open>\<^verbatim>\<open>df.iloc[-1]\<close> raises IndexError on an empty frame.\<close>

definition project_sip :: "int \<Rightarrow> real \<Rightarrow> int \<Rightarrow> bool \<Rightarrow> bool \<Rightarrow> py_error + sip_result" where
  "project_sip monthly_inv return_rate time_period inflation_adj tax_adj =
     (let inflation_rate = (if inflation_adj then 6 else 0);
          months = time_period * 12;
          monthly_rate = return_rate / 100 / 12;
          df = data (sip_loop monthly_inv monthly_rate inflation_rate (nat months))
      in if df = [] then Inl IndexError
         else
           let final_val = Portfolio_Value (last df);
               final_invested = Invested (last df);
               total_gains = final_val - of_int final_invested;
               taxable_gains = max 0 (total_gains - 125000);
               tax_amount = (if tax_adj then taxable_gains * 0.125 else 0);
               post_tax_value = (if tax_adj then final_val - tax_amount else final_val)
           in Inr \<lparr>points = df, final_val = final_val, final_invested = final_invested,
                    total_gains = total_gains, tax_amount = tax_amount,
                    post_tax_value = post_tax_value\<rparr>)"

text \<open>
  Reading the emitted series by month, for stating properties: month \<open>m \<ge> 1\<close> is row
  \<open>m - 1\<close> of the frame, and month 0 stands for the state before the loop, where the
  script sets both running totals to 0.
\<close>

definition value_at :: "projection_point list \<Rightarrow> nat \<Rightarrow> real" where
  "value_at pts m = (if m = 0 then 0 else Portfolio_Value (pts ! (m - 1)))"

definition invested_at :: "projection_point list \<Rightarrow> nat \<Rightarrow> int" where
  "invested_at pts m = (if m = 0 then 0 else Invested (pts ! (m - 1)))"

subsection \<open>Tab 2: Monte Carlo simulator\<close>

text \<open>
  \<^verbatim>\<open>np.random.normal(mean, std, size)\<close> belongs to numpy and reads the global
  generator. It is a parameter of the model: a function of the mean, the standard
  deviation, the number of draws and the generator state, returning the draws and the
  next state. numpy rejects a negative size and a negative standard deviation with
  ValueError before it draws; the model makes that check itself and calls the
  parameter only on arguments numpy accepts.
\<close>

type_synonym 'g normal_sampler = "real \<Rightarrow> real \<Rightarrow> nat \<Rightarrow> 'g \<Rightarrow> real list \<times> 'g"

text \<open>The body of \<^verbatim>\<open>for ret in monthly_returns\<close>, on the pair (portfolio_path, curr).\<close>

definition path_step :: "int \<Rightarrow> real \<Rightarrow> real list \<times> real \<Rightarrow> real list \<times> real" where
  "path_step mc_inv ret pc =
     (let curr = (snd pc + of_int mc_inv) * (1 + ret) in (fst pc @ [curr], curr))"

definition build_path :: "int \<Rightarrow> real list \<Rightarrow> real list \<times> real" where
  "build_path mc_inv monthly_returns = fold (path_step mc_inv) monthly_returns ([0], 0)"

record 'g mc_state =
  rng :: 'g
  paths :: "real list list"
  final_values :: "real list"

text \<open>The values that the inner loop appends to the path, from the running value \<open>v\<close>.\<close>

primrec path_values :: "int \<Rightarrow> real list \<Rightarrow> real \<Rightarrow> real list" where
  "path_values mc_inv [] v = []"
| "path_values mc_inv (ret # rets) v =
     (let curr = (v + of_int mc_inv) * (1 + ret) in curr # path_values mc_inv rets curr)"

text \<open>The body of \<^verbatim>\<open>for i in range(simulations)\<close>.\<close>

definition simulate_one ::
  "'g normal_sampler \<Rightarrow> int \<Rightarrow> real \<Rightarrow> real \<Rightarrow> int \<Rightarrow> 'g mc_state \<Rightarrow> py_error + 'g mc_state" where
  "simulate_one normal mc_inv mc_avg_return mc_volatility months st =
     (let monthly_mean = mc_avg_return / 100 / 12;
          monthly_std = mc_volatility / 100 / sqrt 12
      in if months < 0 \<or> monthly_std < 0 then Inl ValueError
         else
           let (monthly_returns, g') = normal monthly_mean monthly_std (nat months) (rng st);
               (portfolio_path, curr) = build_path mc_inv monthly_returns
           in Inr \<lparr>rng = g', paths = paths st @ [portfolio_path],
                    final_values = final_values st @ [curr]\<rparr>)"

fun simulate_all ::
  "'g normal_sampler \<Rightarrow> int \<Rightarrow> real \<Rightarrow> real \<Rightarrow> int \<Rightarrow> nat \<Rightarrow> 'g mc_state \<Rightarrow> py_error + 'g mc_state" where
  "simulate_all normal mc_inv mc_avg_return mc_volatility months 0 st = Inr st"
| "simulate_all normal mc_inv mc_avg_return mc_volatility months (Suc k) st =
     (case simulate_one normal mc_inv mc_avg_return mc_volatility months st of
        Inl e \<Rightarrow> Inl e
      | Inr st' \<Rightarrow> simulate_all normal mc_inv mc_avg_return mc_volatility months k st')"

text \<open>
  The generator state before simulation \<open>i\<close>, and the returns drawn in simulation
  \<open>i\<close>: every simulation calls the sampler once, with the same three arguments.
\<close>

primrec rng_before :: "'g normal_sampler \<Rightarrow> real \<Rightarrow> real \<Rightarrow> nat \<Rightarrow> 'g \<Rightarrow> nat \<Rightarrow> 'g" where
  "rng_before normal mean std n g 0 = g"
| "rng_before normal mean std n g (Suc i) = snd (normal mean std n (rng_before normal mean std n g i))"

definition draws :: "'g normal_sampler \<Rightarrow> real \<Rightarrow> real \<Rightarrow> nat \<Rightarrow> 'g \<Rightarrow> nat \<Rightarrow> real list" where
  "draws normal mean std n g i = fst (normal mean std n (rng_before normal mean std n g i))"

text \<open>A sampler without spread and without state: every draw is the mean. It is what
  a normal sampler returns at a standard deviation of zero.\<close>

definition constant_sampler :: "unit normal_sampler" where
  "constant_sampler mean std n g = (replicate n mean, g)"

text \<open>Python's \<open>min\<close> and \<open>max\<close> of a list: ValueError on the empty list.\<close>

fun py_min :: "real list \<Rightarrow> py_error + real" where
  "py_min [] = Inl ValueError"
| "py_min (x # xs) = Inr (fold min xs x)"

fun py_max :: "real list \<Rightarrow> py_error + real" where
  "py_max [] = Inl ValueError"
| "py_max (x # xs) = Inr (fold max xs x)"

text \<open>\<^verbatim>\<open>np.median\<close> belongs to numpy: the middle element of the sorted values, the
  mean of the two middle ones for an even count. On no values numpy returns nan, which
  \<open>None\<close> stands for.\<close>

definition np_median :: "real list \<Rightarrow> real option" where
  "np_median xs =
     (let s = sort xs; n = length s
      in if n = 0 then None
         else if even n then Some ((s ! (n div 2 - 1) + s ! (n div 2)) / 2)
         else Some (s ! (n div 2)))"

record mc_result =
  mc_paths :: "real list list"
  terminals :: "real list"
  avg_path :: "real list"
  worst_case :: real
  median_case :: "real option"
  best_case :: real

definition simulations :: nat where
  "simulations = 50"

text \<open>\<^verbatim>\<open>avg_path\<close> is the list comprehension after the loop, over
  \<open>range(months + 1)\<close>; its exponents are not negative.\<close>

definition run_monte_carlo ::
  "'g normal_sampler \<Rightarrow> 'g \<Rightarrow> int \<Rightarrow> int \<Rightarrow> real \<Rightarrow> real \<Rightarrow> py_error + mc_result" where
  "run_monte_carlo normal g mc_years mc_inv mc_avg_return mc_volatility =
     (let months = mc_years * 12 in
      case simulate_all normal mc_inv mc_avg_return mc_volatility months simulations
             \<lparr>rng = g, paths = [], final_values = []\<rparr> of
        Inl e \<Rightarrow> Inl e
      | Inr st \<Rightarrow>
          (let monthly_mean = mc_avg_return / 100 / 12;
               avg = map (\<lambda>m. of_int mc_inv * real m * (1 + monthly_mean) ^ m)
                       [0..<nat (months + 1)]
           in case py_min (final_values st) of
                Inl e \<Rightarrow> Inl e
              | Inr lo \<Rightarrow>
                  (case py_max (final_values st) of
                     Inl e \<Rightarrow> Inl e
                   | Inr hi \<Rightarrow>
                       Inr \<lparr>mc_paths = paths st, terminals = final_values st,
                            avg_path = avg, worst_case = lo,
                            median_case = np_median (final_values st),
                            best_case = hi\<rparr>)))"

subsection \<open>Tab 3: cost of delay\<close>

record delay_comparison =
  corpus_a :: real
  corpus_b :: real
  loss :: real

text \<open>
  The rate of this tab is \<^verbatim>\<open>st.number_input("Return Rate (%)", value=12.0)\<close>, a
  float without bounds, and the contribution an integer without bounds (the widget
  delivers integers of magnitude below \<open>2^53\<close>). A float power whose value exceeds the
  largest float raises OverflowError in Python; with this rate it can. The largest
  float is \<open>(2^53 - 1) \<times> 2^971\<close>.
\<close>

definition float_max :: real where
  "float_max = (2 ^ 53 - 1) * 2 ^ 971"

text \<open>The annuity expression under an unbounded rate: the power is evaluated first and
  may overflow; otherwise the expression evaluates as above.\<close>

definition annuity_due_float :: "real \<Rightarrow> real \<Rightarrow> int \<Rightarrow> py_error + real" where
  "annuity_due_float amount rate months =
     (case py_pow (1 + rate) months of
        Inl e \<Rightarrow> Inl e
      | Inr p \<Rightarrow>
          if float_max < \<bar>p\<bar> then Inl OverflowError
          else annuity_due amount rate months)"

text \<open>
  Rounding is not modelled. In floats \<open>1 + rate\<close> is 1 once \<open>\<bar>rate\<bar>\<close> is below
  \<open>2^-53\<close>, and the script's corpus is then 0; and a rate below the smallest float
  is 0. The values that this definition returns are those of the script up to
  rounding for annual rates of magnitude between \<open>10^-6\<close> and 1200 percent; the
  statements about this tab are made on that range, or at the rate 0, or where the
  power overflows.
\<close>

definition compute_delay_cost :: "int \<Rightarrow> real \<Rightarrow> int \<Rightarrow> int \<Rightarrow> py_error + delay_comparison" where
  "compute_delay_cost delay_inv delay_ret delay_duration delay_years =
     (let months_a = delay_duration * 12;
          rate = delay_ret / 100 / 12
      in case annuity_due_float (of_int delay_inv) rate months_a of
           Inl e \<Rightarrow> Inl e
         | Inr a \<Rightarrow>
             (let months_b = (delay_duration - delay_years) * 12
              in case annuity_due_float (of_int delay_inv) rate months_b of
                   Inl e \<Rightarrow> Inl e
                 | Inr b \<Rightarrow> Inr \<lparr>corpus_a = a, corpus_b = b, loss = a - b\<rparr>))"

subsection \<open>Tab 4: goal planner\<close>

record goal_result =
  future_cost :: real
  future_savings :: real
  gap :: real
  affordable :: bool

definition compute_goal_gap ::
  "int \<Rightarrow> int \<Rightarrow> int \<Rightarrow> int \<Rightarrow> real \<Rightarrow> py_error + goal_result" where
  "compute_goal_gap current_cost years_to_buy item_inflation monthly_savings_goal goal_return =
     (case py_pow (1 + (of_int item_inflation / 100)) years_to_buy of
        Inl e \<Rightarrow> Inl e
      | Inr p \<Rightarrow>
          (let cost = of_int current_cost * p;
               months = years_to_buy * 12;
               monthly_rate = goal_return / 100 / 12
           in case annuity_due (of_int monthly_savings_goal) monthly_rate months of
                Inl e \<Rightarrow> Inl e
              | Inr savings \<Rightarrow>
                  Inr \<lparr>future_cost = cost, future_savings = savings,
                       gap = savings - cost, affordable = (0 \<le> savings - cost)\<rparr>))"

section \<open>The annuity expression\<close>

lemma py_pow_nonneg: "0 \<le> n \<Longrightarrow> py_pow x n = Inr (x ^ nat n)"
  by (simp add: py_pow_def)

lemma py_pow_powi: "x \<noteq> 0 \<or> 0 \<le> n \<Longrightarrow> py_pow x n = Inr (power_int x n)"
  by (auto simp: py_pow_def power_int_def inverse_eq_divide power_one_over)

lemma annuity_due_value:
  assumes "rate \<noteq> 0" and "1 + rate \<noteq> 0 \<or> 0 \<le> months"
  shows "annuity_due amount rate months
           = Inr (amount * ((power_int (1 + rate) months - 1) / rate) * (1 + rate))"
  using assms by (simp add: annuity_due_def py_pow_powi py_div_def)

text \<open>
  C4. At a periodic rate of zero the annuity expression divides by zero: the script has
  no special case, and the evaluation ends in ZeroDivisionError for every contribution
  and every number of periods, instead of yielding contribution times periods.
\<close>

theorem annuity_due_zero_rate_raises:
  "annuity_due c 0 n = Inl ZeroDivisionError"
  by (simp add: annuity_due_def py_pow_def py_div_def)

section \<open>Tab 1: SIP projector\<close>

text \<open>The loop, one month at a time.\<close>

lemma sip_loop_0: "sip_loop c r i 0 = sip_init"
  by (simp add: sip_loop_def)

lemma sip_loop_Suc: "sip_loop c r i (Suc n) = sip_step c r i (Suc n) (sip_loop c r i n)"
  by (simp add: sip_loop_def)

lemma total_invested_sip_loop: "total_invested (sip_loop c r i n) = int n * c"
  by (induction n) (simp_all add: sip_loop_0 sip_loop_Suc sip_init_def sip_step_def Let_def algebra_simps)

lemma current_value_sip_loop_Suc:
  "current_value (sip_loop c r i (Suc n)) = current_value (sip_loop c r i n) * (1 + r) + of_int c"
  by (simp add: sip_loop_Suc sip_step_def Let_def algebra_simps)

lemma length_data_sip_loop: "length (data (sip_loop c r i n)) = n"
  by (induction n) (simp_all add: sip_loop_0 sip_loop_Suc sip_init_def sip_step_def Let_def)

lemma data_sip_loop_Suc:
  "data (sip_loop c r i (Suc n)) = data (sip_loop c r i n) @
     [\<lparr>Month = int (Suc n), Year = real (Suc n) / 12,
       Invested = total_invested (sip_loop c r i (Suc n)),
       Portfolio_Value = current_value (sip_loop c r i (Suc n)),
       Real_Value = current_value (sip_loop c r i (Suc n)) / (1 + i / 100 / 12) ^ Suc n\<rparr>]"
  by (simp add: sip_loop_Suc sip_step_def Let_def)

lemma data_sip_loop_nth:
  "k < n \<Longrightarrow> data (sip_loop c r i n) ! k =
     \<lparr>Month = int (Suc k), Year = real (Suc k) / 12,
       Invested = total_invested (sip_loop c r i (Suc k)),
       Portfolio_Value = current_value (sip_loop c r i (Suc k)),
       Real_Value = current_value (sip_loop c r i (Suc k)) / (1 + i / 100 / 12) ^ Suc k\<rparr>"
proof (induction n)
  case 0
  then show ?case by simp
next
  case (Suc n)
  show ?case
  proof (cases "k < n")
    case True
    then show ?thesis
      using Suc.IH by (simp add: data_sip_loop_Suc nth_append length_data_sip_loop del: power_Suc)
  next
    case False
    with Suc.prems have "k = n" by simp
    then show ?thesis
      by (simp add: data_sip_loop_Suc nth_append length_data_sip_loop del: power_Suc)
  qed
qed

text \<open>The closed form of the running value: the ordinary-annuity sum.\<close>

lemma current_value_closed_form:
  "r \<noteq> 0 \<Longrightarrow> current_value (sip_loop c r i n) = of_int c * (((1 + r) ^ n - 1) / r)"
proof (induction n)
  case 0
  then show ?case by (simp add: sip_loop_0 sip_init_def)
next
  case (Suc n)
  have "current_value (sip_loop c r i (Suc n))
          = of_int c * (((1 + r) ^ n - 1) / r) * (1 + r) + of_int c"
    using Suc by (simp add: current_value_sip_loop_Suc)
  also have "\<dots> = of_int c * ((((1 + r) ^ n - 1) * (1 + r) + r) / r)"
    using \<open>r \<noteq> 0\<close> by (simp add: field_simps)
  also have "((1 + r) ^ n - 1) * (1 + r) + r = (1 + r) ^ Suc n - 1"
    by (simp add: algebra_simps)
  finally show ?case .
qed

lemma current_value_nonneg:
  "0 \<le> r \<Longrightarrow> 0 \<le> c \<Longrightarrow> 0 \<le> current_value (sip_loop c r i n)"
  by (induction n) (simp_all add: sip_loop_0 sip_init_def current_value_sip_loop_Suc)

lemma current_value_step_mono:
  assumes "0 \<le> r" "0 \<le> c"
  shows "current_value (sip_loop c r i n) \<le> current_value (sip_loop c r i (Suc n))"
proof -
  have "0 \<le> current_value (sip_loop c r i n) * r"
    using assms current_value_nonneg by simp
  then show ?thesis using assms(2) by (simp add: current_value_sip_loop_Suc algebra_simps)
qed

lemma current_value_mono:
  assumes "0 \<le> r" "0 \<le> c" "m \<le> n"
  shows "current_value (sip_loop c r i m) \<le> current_value (sip_loop c r i n)"
  using assms(3)
proof (induction n)
  case 0
  then show ?case by simp
next
  case (Suc n)
  show ?case
  proof (cases "m = Suc n")
    case True
    then show ?thesis by simp
  next
    case False
    with Suc.prems have "m \<le> n" by simp
    then have "current_value (sip_loop c r i m) \<le> current_value (sip_loop c r i n)"
      by (rule Suc.IH)
    also have "\<dots> \<le> current_value (sip_loop c r i (Suc n))"
      using assms(1,2) by (rule current_value_step_mono)
    finally show ?thesis .
  qed
qed

lemma current_value_ge_invested:
  assumes "0 \<le> r" "0 \<le> c"
  shows "of_int (total_invested (sip_loop c r i n)) \<le> current_value (sip_loop c r i n)"
proof (induction n)
  case 0
  then show ?case by (simp add: sip_loop_0 sip_init_def)
next
  case (Suc n)
  have "0 \<le> current_value (sip_loop c r i n) * r"
    using assms current_value_nonneg by simp
  with Suc show ?case
    by (simp add: total_invested_sip_loop current_value_sip_loop_Suc algebra_simps)
qed

text \<open>With at least one year the frame is not empty, and the final scalars are read
  from the last state of the loop.\<close>

lemma project_sip_value:
  assumes "1 \<le> time_period"
  shows "project_sip monthly_inv return_rate time_period inflation_adj tax_adj =
    (let st = sip_loop monthly_inv (return_rate / 100 / 12) (if inflation_adj then 6 else 0)
                (nat (time_period * 12));
         gains = current_value st - of_int (total_invested st);
         tax = (if tax_adj then max 0 (gains - 125000) * 0.125 else 0)
     in Inr \<lparr>points = data st, final_val = current_value st,
             final_invested = total_invested st, total_gains = gains,
             tax_amount = tax,
             post_tax_value = (if tax_adj then current_value st - tax else current_value st)\<rparr>)"
proof -
  obtain n where n: "nat (time_period * 12) = Suc n"
    using assms by (cases "nat (time_period * 12)") auto
  have ne: "data (sip_loop c r i (Suc n)) \<noteq> []" for c r i
    by (simp add: data_sip_loop_Suc)
  have l: "last (data (sip_loop c r i (Suc n))) =
     \<lparr>Month = int (Suc n), Year = real (Suc n) / 12,
       Invested = total_invested (sip_loop c r i (Suc n)),
       Portfolio_Value = current_value (sip_loop c r i (Suc n)),
       Real_Value = current_value (sip_loop c r i (Suc n)) / (1 + i / 100 / 12) ^ Suc n\<rparr>" for c r i
    by (simp add: data_sip_loop_Suc)
  show ?thesis
    unfolding project_sip_def Let_def n
    by (simp only: ne l if_False projection_point.simps)
qed

text \<open>
  C1. With at least one year (the slider runs from 1 to 30) the projector returns one
  row per month, \<open>years \<times> 12\<close> rows, and for every month \<open>m\<close> from 1 to \<open>years \<times> 12\<close>:
  the row carries the month number; the invested total is the previous month's plus the
  monthly contribution; the portfolio value is the previous month's times
  \<open>1 + monthlyRate\<close> plus the contribution, starting from 0 before the first month, so
  that the contribution of a month earns nothing in that month; and the real value is
  the portfolio value divided by \<open>(1 + monthlyInflation)^m\<close>, where the monthly
  inflation is 6/100/12 with the flag on and 0 with the flag off.
\<close>

theorem sip_monthly_step:
  assumes "1 \<le> time_period"
  shows "\<exists>res. project_sip monthly_inv return_rate time_period inflation_adj tax_adj = Inr res \<and>
           length (points res) = nat (time_period * 12) \<and>
           (\<forall>m. 1 \<le> m \<and> int m \<le> time_period * 12 \<longrightarrow>
              Month (points res ! (m - 1)) = int m \<and>
              invested_at (points res) m = invested_at (points res) (m - 1) + monthly_inv \<and>
              value_at (points res) m =
                value_at (points res) (m - 1) * (1 + return_rate / 100 / 12) + of_int monthly_inv \<and>
              Real_Value (points res ! (m - 1)) =
                value_at (points res) m / (1 + (if inflation_adj then 6 / 100 / 12 else 0)) ^ m)"
proof -
  let ?r = "return_rate / 100 / 12"
  let ?i = "if inflation_adj then 6 else (0::real)"
  let ?n = "nat (time_period * 12)"
  let ?st = "sip_loop monthly_inv ?r ?i"
  obtain res where res: "project_sip monthly_inv return_rate time_period inflation_adj tax_adj = Inr res"
    and pts: "points res = data (?st ?n)"
    using project_sip_value [OF assms, of monthly_inv return_rate inflation_adj tax_adj]
    by (auto simp: Let_def)
  have len: "length (points res) = ?n"
    by (simp add: pts length_data_sip_loop)
  have inv: "invested_at (points res) m = total_invested (?st m)" if "m \<le> ?n" for m
  proof (cases m)
    case 0
    then show ?thesis by (simp add: invested_at_def sip_loop_0 sip_init_def)
  next
    case (Suc k)
    with that have "k < ?n" by simp
    then show ?thesis
      unfolding invested_at_def pts Suc by (simp add: data_sip_loop_nth del: power_Suc)
  qed
  have val: "value_at (points res) m = current_value (?st m)" if "m \<le> ?n" for m
  proof (cases m)
    case 0
    then show ?thesis by (simp add: value_at_def sip_loop_0 sip_init_def)
  next
    case (Suc k)
    with that have "k < ?n" by simp
    then show ?thesis
      unfolding value_at_def pts Suc by (simp add: data_sip_loop_nth del: power_Suc)
  qed
  have step: "Month (points res ! (m - 1)) = int m \<and>
              invested_at (points res) m = invested_at (points res) (m - 1) + monthly_inv \<and>
              value_at (points res) m =
                value_at (points res) (m - 1) * (1 + ?r) + of_int monthly_inv \<and>
              Real_Value (points res ! (m - 1)) =
                value_at (points res) m / (1 + (if inflation_adj then 6 / 100 / 12 else 0)) ^ m"
    if m: "1 \<le> m \<and> int m \<le> time_period * 12" for m
  proof -
    from m obtain k where k: "m = Suc k" by (cases m) auto
    from m have le: "m \<le> ?n" by linarith
    then have k_lt: "k < ?n" and k_le: "k \<le> ?n" using k by simp_all
    have row: "points res ! k =
       \<lparr>Month = int (Suc k), Year = real (Suc k) / 12,
         Invested = total_invested (?st (Suc k)),
         Portfolio_Value = current_value (?st (Suc k)),
         Real_Value = current_value (?st (Suc k)) / (1 + ?i / 100 / 12) ^ Suc k\<rparr>"
      unfolding pts using k_lt by (rule data_sip_loop_nth)
    have 1: "Month (points res ! (m - 1)) = int m"
      by (simp add: k row)
    have 2: "invested_at (points res) m = invested_at (points res) (m - 1) + monthly_inv"
      using inv [OF le] inv [OF k_le] by (simp add: k total_invested_sip_loop algebra_simps)
    have 3: "value_at (points res) m = value_at (points res) (m - 1) * (1 + ?r) + of_int monthly_inv"
      using val [OF le] val [OF k_le] by (simp add: k current_value_sip_loop_Suc)
    have 4: "Real_Value (points res ! (m - 1)) =
                value_at (points res) m / (1 + (if inflation_adj then 6 / 100 / 12 else 0)) ^ m"
      using val [OF le] by (simp add: k row del: power_Suc)
    from 1 2 3 4 show ?thesis by blast
  qed
  from res len step show ?thesis by blast
qed

theorem sip_monthly_step_witness:
  "(1::int) \<le> 1 \<and>
   (\<exists>res. project_sip 1000 12 1 True False = Inr res \<and>
      length (points res) = 12 \<and>
      value_at (points res) 0 = 0 \<and>
      value_at (points res) 1 = 1000 \<and>
      invested_at (points res) 2 = 2000 \<and>
      value_at (points res) 2 = 1000 * (1 + 12 / 100 / 12) + 1000 \<and>
      Real_Value (points res ! 1) = value_at (points res) 2 / (1 + 6 / 100 / 12) ^ 2)"
proof -
  obtain res where res: "project_sip 1000 12 1 True False = Inr res"
    and len: "length (points res) = nat (1 * 12)"
    and step: "\<And>m. 1 \<le> m \<and> int m \<le> 1 * 12 \<Longrightarrow>
              Month (points res ! (m - 1)) = int m \<and>
              invested_at (points res) m = invested_at (points res) (m - 1) + 1000 \<and>
              value_at (points res) m =
                value_at (points res) (m - 1) * (1 + 12 / 100 / 12) + of_int 1000 \<and>
              Real_Value (points res ! (m - 1)) =
                value_at (points res) m / (1 + (if True then 6 / 100 / 12 else 0)) ^ m"
    using sip_monthly_step [of 1 1000 12 True False] by blast
  have z: "value_at (points res) 0 = 0" "invested_at (points res) 0 = 0"
    by (simp_all add: value_at_def invested_at_def)
  from step [of 1] z have one: "value_at (points res) 1 = 1000" "invested_at (points res) 1 = 1000"
    by simp_all
  from step [of 2] one have two: "invested_at (points res) 2 = 2000"
      "value_at (points res) 2 = 1000 * (1 + 12 / 100 / 12) + 1000"
      "Real_Value (points res ! 1) = value_at (points res) 2 / (1 + 6 / 100 / 12) ^ 2"
    by simp_all
  from res len z one two show ?thesis by (intro conjI exI [of _ res]) simp_all
qed

text \<open>
  C7. For a positive contribution and at least one year: the final invested amount is
  exactly \<open>contribution \<times> (years \<times> 12)\<close>; the invested column is strictly increasing
  from row to row; and when the annual rate is not negative, the portfolio value never
  decreases from one row to a later one and the final value is at least the final
  invested amount.
\<close>

theorem sip_invariants:
  assumes "1 \<le> time_period" and "0 < monthly_inv"
  shows "\<exists>res. project_sip monthly_inv return_rate time_period inflation_adj tax_adj = Inr res \<and>
           final_invested res = monthly_inv * (time_period * 12) \<and>
           (\<forall>j k. j < k \<and> k < length (points res) \<longrightarrow>
              Invested (points res ! j) < Invested (points res ! k)) \<and>
           (0 \<le> return_rate \<longrightarrow>
              (\<forall>j k. j \<le> k \<and> k < length (points res) \<longrightarrow>
                 Portfolio_Value (points res ! j) \<le> Portfolio_Value (points res ! k)) \<and>
              of_int (final_invested res) \<le> final_val res)"
proof -
  let ?r = "return_rate / 100 / 12"
  let ?i = "if inflation_adj then 6 else (0::real)"
  let ?n = "nat (time_period * 12)"
  let ?st = "sip_loop monthly_inv ?r ?i"
  obtain res where res: "project_sip monthly_inv return_rate time_period inflation_adj tax_adj = Inr res"
    and pts: "points res = data (?st ?n)"
    and fv: "final_val res = current_value (?st ?n)"
    and fi: "final_invested res = total_invested (?st ?n)"
    using project_sip_value [OF assms(1), of monthly_inv return_rate inflation_adj tax_adj]
    by (auto simp: Let_def)
  have len: "length (points res) = ?n"
    by (simp add: pts length_data_sip_loop)
  have inv_row: "Invested (points res ! k) = int (Suc k) * monthly_inv" if "k < ?n" for k
    unfolding pts using that by (simp add: data_sip_loop_nth total_invested_sip_loop del: power_Suc)
  have val_row: "Portfolio_Value (points res ! k) = current_value (?st (Suc k))" if "k < ?n" for k
    unfolding pts using that by (simp add: data_sip_loop_nth del: power_Suc)
  have 1: "final_invested res = monthly_inv * (time_period * 12)"
    using assms(1) by (simp add: fi total_invested_sip_loop)
  have 2: "Invested (points res ! j) < Invested (points res ! k)"
    if "j < k \<and> k < length (points res)" for j k
  proof -
    from that len have "j < ?n" "k < ?n" by simp_all
    then have "Invested (points res ! j) = int (Suc j) * monthly_inv"
      and "Invested (points res ! k) = int (Suc k) * monthly_inv"
      by (simp_all only: inv_row)
    moreover have "int (Suc j) * monthly_inv < int (Suc k) * monthly_inv"
      using that assms(2) by (intro mult_strict_right_mono) simp_all
    ultimately show ?thesis by simp
  qed
  have 3: "Portfolio_Value (points res ! j) \<le> Portfolio_Value (points res ! k)"
    if "0 \<le> return_rate" and "j \<le> k \<and> k < length (points res)" for j k
  proof -
    from that len have "j < ?n" "k < ?n" by simp_all
    then have "Portfolio_Value (points res ! j) = current_value (?st (Suc j))"
      and "Portfolio_Value (points res ! k) = current_value (?st (Suc k))"
      by (simp_all only: val_row)
    moreover have "current_value (?st (Suc j)) \<le> current_value (?st (Suc k))"
      using that assms(2) by (intro current_value_mono) simp_all
    ultimately show ?thesis by simp
  qed
  have 4: "of_int (final_invested res) \<le> final_val res" if "0 \<le> return_rate"
    unfolding fv fi using that assms(2) by (intro current_value_ge_invested) simp_all
  from res 1 2 3 4 show ?thesis by blast
qed

theorem sip_invariants_witness:
  "(1::int) \<le> 15 \<and> (0::int) < 25000 \<and>
   (\<exists>res. project_sip 25000 12 15 False False = Inr res \<and>
      final_invested res = 25000 * 180 \<and>
      Invested (points res ! 0) < Invested (points res ! 1) \<and>
      Portfolio_Value (points res ! 0) \<le> Portfolio_Value (points res ! 1) \<and>
      4500000 \<le> final_val res)"
proof -
  have h1: "(1::int) \<le> 15" and h2: "(0::int) < 25000" by simp_all
  obtain res where res: "project_sip 25000 12 15 False False = Inr res"
    and fi: "final_invested res = 25000 * (15 * 12)"
    and inc: "\<And>j k. j < k \<and> k < length (points res) \<Longrightarrow>
              Invested (points res ! j) < Invested (points res ! k)"
    and nd: "(0::real) \<le> 12 \<longrightarrow>
              (\<forall>j k. j \<le> k \<and> k < length (points res) \<longrightarrow>
                 Portfolio_Value (points res ! j) \<le> Portfolio_Value (points res ! k)) \<and>
              of_int (final_invested res) \<le> final_val res"
    using sip_invariants [of 15 25000 12 False False, OF h1 h2] by blast
  have len: "length (points res) = 180"
    using res project_sip_value [of 15 25000 12 False False]
    by (auto simp: Let_def length_data_sip_loop)
  from inc [of 0 1] len have a: "Invested (points res ! 0) < Invested (points res ! 1)" by simp
  from nd len have b: "Portfolio_Value (points res ! 0) \<le> Portfolio_Value (points res ! 1)"
    and c: "of_int (final_invested res) \<le> final_val res" by simp_all
  from res fi a b c show ?thesis by (intro conjI exI [of _ res]) simp_all
qed

text \<open>
  C10. For a positive annual rate and at least one year, with \<open>r\<close> the monthly rate and
  \<open>n = years \<times> 12\<close>: the final value of the SIP loop is
  \<open>c \<times> (((1 + r)^n - 1) / r)\<close>, the future value of an ordinary annuity, and the
  annuity expression of tabs 3 and 4 on the same \<open>c\<close>, \<open>r\<close> and \<open>n\<close> returns a value
  \<open>v\<close> with the final SIP value equal to \<open>v / (1 + r)\<close>: the loop is one compounding
  period short of that expression. This holds for every contribution, positive or not.
\<close>

theorem sip_closed_form:
  assumes "1 \<le> time_period" and "0 < return_rate"
  shows "\<exists>res v. project_sip monthly_inv return_rate time_period inflation_adj tax_adj = Inr res \<and>
           final_val res = of_int monthly_inv *
              (((1 + return_rate / 100 / 12) ^ nat (time_period * 12) - 1) / (return_rate / 100 / 12)) \<and>
           annuity_due (of_int monthly_inv) (return_rate / 100 / 12) (time_period * 12) = Inr v \<and>
           final_val res = v / (1 + return_rate / 100 / 12)"
proof -
  let ?r = "return_rate / 100 / 12"
  let ?i = "if inflation_adj then 6 else (0::real)"
  let ?n = "nat (time_period * 12)"
  have r: "?r \<noteq> 0" and r1: "1 + ?r \<noteq> 0" using assms(2) by simp_all
  obtain res where res: "project_sip monthly_inv return_rate time_period inflation_adj tax_adj = Inr res"
    and fv: "final_val res = current_value (sip_loop monthly_inv ?r ?i ?n)"
    using project_sip_value [OF assms(1), of monthly_inv return_rate inflation_adj tax_adj]
    by (auto simp: Let_def)
  have cf: "final_val res = of_int monthly_inv * (((1 + ?r) ^ ?n - 1) / ?r)"
    unfolding fv using r by (rule current_value_closed_form)
  have an: "annuity_due (of_int monthly_inv) ?r (time_period * 12)
              = Inr (of_int monthly_inv * (((1 + ?r) ^ ?n - 1) / ?r) * (1 + ?r))"
    using r assms(1) by (simp add: annuity_due_def py_pow_nonneg py_div_def)
  have "final_val res = (of_int monthly_inv * (((1 + ?r) ^ ?n - 1) / ?r) * (1 + ?r)) / (1 + ?r)"
    using r1 cf by simp
  with res cf an show ?thesis by blast
qed

theorem sip_closed_form_witness:
  "(1::int) \<le> 1 \<and> (0::real) < 12 \<and>
   (\<exists>res v. project_sip 1000 12 1 False False = Inr res \<and>
      final_val res = 1000 * (((101 / 100) ^ 12 - 1) / (1 / 100)) \<and>
      annuity_due 1000 (1 / 100) 12 = Inr v \<and>
      final_val res = v / (101 / 100))"
proof -
  have h1: "(1::int) \<le> 1" and h2: "(0::real) < 12" by simp_all
  obtain res v where "project_sip 1000 12 1 False False = Inr res"
    and "final_val res = of_int 1000 * (((1 + 12 / 100 / 12) ^ nat (1 * 12) - 1) / (12 / 100 / 12))"
    and "annuity_due (of_int 1000) (12 / 100 / 12) (1 * 12) = Inr v"
    and "final_val res = v / (1 + 12 / 100 / 12)"
    using sip_closed_form [of 1 12 1000 False False, OF h1 h2] by blast
  then show ?thesis by (intro conjI exI [of _ res] exI [of _ v]) simp_all
qed

section \<open>Tab 2: Monte Carlo simulator\<close>

text \<open>The inner loop, the outer loop and the summary, each as a value.\<close>

lemma fold_path_step:
  "fold (path_step c) rets (p, v) = (p @ path_values c rets v, last (v # path_values c rets v))"
  by (induction rets arbitrary: p v) (simp_all add: path_step_def Let_def)

lemma build_path_eq:
  "build_path c rets = (0 # path_values c rets 0, last (0 # path_values c rets 0))"
  by (simp add: build_path_def fold_path_step)

lemma length_path_values: "length (path_values c rets v) = length rets"
  by (induction rets arbitrary: v) (simp_all add: Let_def)

lemma path_values_nth:
  "k < length rets \<Longrightarrow>
     (v # path_values c rets v) ! Suc k = ((v # path_values c rets v) ! k + of_int c) * (1 + rets ! k)"
proof (induction rets arbitrary: v k)
  case Nil
  then show ?case by simp
next
  case (Cons r rs)
  show ?case
  proof (cases k)
    case 0
    then show ?thesis by (simp add: Let_def)
  next
    case (Suc j)
    with Cons.prems have "j < length rs" by simp
    from Cons.IH [OF this, of "(v + of_int c) * (1 + r)"] show ?thesis
      by (simp add: Suc Let_def)
  qed
qed

lemma simulate_one_value:
  assumes "0 \<le> months" and "0 \<le> vol"
  shows "simulate_one normal c avg vol months st =
           Inr \<lparr>rng = snd (normal (avg / 100 / 12) (vol / 100 / sqrt 12) (nat months) (rng st)),
                paths = paths st @ [fst (build_path c (fst (normal (avg / 100 / 12) (vol / 100 / sqrt 12) (nat months) (rng st))))],
                final_values = final_values st @ [snd (build_path c (fst (normal (avg / 100 / 12) (vol / 100 / sqrt 12) (nat months) (rng st))))]\<rparr>"
proof -
  have "\<not> vol / 100 / sqrt 12 < 0"
    using assms(2) by (simp add: divide_less_0_iff)
  then show ?thesis
    using assms(1) by (simp add: simulate_one_def Let_def split_beta)
qed

lemma simulate_all_value:
  assumes "0 \<le> months" and "0 \<le> vol"
  shows "simulate_all normal c avg vol months k st =
           Inr \<lparr>rng = rng_before normal (avg / 100 / 12) (vol / 100 / sqrt 12) (nat months) (rng st) k,
                paths = paths st @ map (\<lambda>i. fst (build_path c
                    (draws normal (avg / 100 / 12) (vol / 100 / sqrt 12) (nat months) (rng st) i))) [0..<k],
                final_values = final_values st @ map (\<lambda>i. snd (build_path c
                    (draws normal (avg / 100 / 12) (vol / 100 / sqrt 12) (nat months) (rng st) i))) [0..<k]\<rparr>"
proof (induction k arbitrary: st)
  case 0
  show ?case by simp
next
  case (Suc k)
  let ?m = "avg / 100 / 12" and ?s = "vol / 100 / sqrt 12" and ?n = "nat months"
  let ?st1 = "\<lparr>rng = snd (normal ?m ?s ?n (rng st)),
                paths = paths st @ [fst (build_path c (fst (normal ?m ?s ?n (rng st))))],
                final_values = final_values st @ [snd (build_path c (fst (normal ?m ?s ?n (rng st))))]\<rparr>"
  have shift: "rng_before normal ?m ?s ?n (snd (normal ?m ?s ?n g)) i
                 = rng_before normal ?m ?s ?n g (Suc i)" for g i
    by (induction i) simp_all
  have dshift: "draws normal ?m ?s ?n (snd (normal ?m ?s ?n g)) i = draws normal ?m ?s ?n g (Suc i)" for g i
    unfolding draws_def by (simp only: shift)
  have d0: "fst (normal ?m ?s ?n g) = draws normal ?m ?s ?n g 0" for g
    by (simp add: draws_def)
  have upt: "[0..<Suc k] = 0 # map Suc [0..<k]"
    by (simp add: upt_conv_Cons map_Suc_upt del: upt_Suc)
  show ?case
    apply (simp only: simulate_all.simps simulate_one_value [OF assms] sum.case Suc.IH)
    apply (simp only: mc_state.simps shift dshift d0 upt list.map map_map comp_def)
    apply simp
    done
qed


lemma py_min_Min: "xs \<noteq> [] \<Longrightarrow> py_min xs = Inr (Min (set xs))"
proof (cases xs)
  case (Cons x ys)
  then show ?thesis using Min.set_eq_fold [of x ys] by simp
qed simp

lemma py_max_Max: "xs \<noteq> [] \<Longrightarrow> py_max xs = Inr (Max (set xs))"
proof (cases xs)
  case (Cons x ys)
  then show ?thesis using Max.set_eq_fold [of x ys] by simp
qed simp

lemma sort_nth_bounds:
  fixes xs :: "real list"
  assumes "k < length xs"
  shows "Min (set xs) \<le> sort xs ! k" and "sort xs ! k \<le> Max (set xs)"
proof -
  have "sort xs ! k \<in> set (sort xs)"
    using assms by (intro nth_mem) simp
  then have "sort xs ! k \<in> set xs" by simp
  then show "Min (set xs) \<le> sort xs ! k" and "sort xs ! k \<le> Max (set xs)"
    by simp_all
qed

lemma np_median_even:
  assumes "length xs = 2 * h" and "0 < h"
  shows "np_median xs = Some ((sort xs ! (h - 1) + sort xs ! h) / 2)"
proof -
  have "xs \<noteq> []" using assms by auto
  then have "sort xs \<noteq> []" by (metis set_empty set_sort)
  then show ?thesis using assms(1) by (simp add: np_median_def Let_def)
qed

lemma run_monte_carlo_value:
  assumes "0 \<le> mc_years" and "0 \<le> vol"
  shows "run_monte_carlo normal g mc_years c avg vol =
           (let T = map (\<lambda>i. snd (build_path c
                      (draws normal (avg / 100 / 12) (vol / 100 / sqrt 12) (nat (mc_years * 12)) g i)))
                      [0..<simulations]
            in Inr \<lparr>mc_paths = map (\<lambda>i. fst (build_path c
                      (draws normal (avg / 100 / 12) (vol / 100 / sqrt 12) (nat (mc_years * 12)) g i)))
                      [0..<simulations],
                    terminals = T,
                    avg_path = map (\<lambda>m. of_int c * real m * (1 + avg / 100 / 12) ^ m)
                                 [0..<nat (mc_years * 12 + 1)],
                    worst_case = Min (set T),
                    median_case = np_median T,
                    best_case = Max (set T)\<rparr>)"
proof -
  have m: "0 \<le> mc_years * 12" using assms(1) by simp
  have ne: "map f [0..<simulations] \<noteq> []" for f :: "nat \<Rightarrow> real"
    by (simp add: simulations_def)
  show ?thesis
    unfolding run_monte_carlo_def Let_def
    by (simp only: simulate_all_value [OF m assms(2)] sum.case mc_state.simps append_Nil
          py_min_Min [OF ne] py_max_Max [OF ne])
qed

text \<open>
  C2. The sampler is called, in each of the 50 simulations, with the monthly mean
  \<open>avgAnnualReturnPct/100/12\<close>, the monthly standard deviation
  \<open>volatilityPct/100/\<surd>12\<close> and the number of months; that it draws from a normal
  distribution, independently, is numpy's part and not the script's. Given a sampler
  that returns as many draws as it is asked for, and years and volatility that are not
  negative: every one of the 50 paths has length \<open>months + 1\<close>, starts at 0, steps by
  \<open>value = (value + contribution) \<times> (1 + r)\<close> with \<open>r\<close> the draw of that month, and
  the terminal value recorded for the simulation is the last element of its path.
\<close>

theorem monte_carlo_paths:
  assumes "0 \<le> mc_years" and "0 \<le> mc_volatility"
      and "\<forall>mean std n s. length (fst (normal mean std n s)) = n"
  shows "\<exists>res. run_monte_carlo normal g mc_years mc_inv mc_avg_return mc_volatility = Inr res \<and>
           length (mc_paths res) = 50 \<and> length (terminals res) = 50 \<and>
           (\<forall>i<50.
              length (draws normal (mc_avg_return / 100 / 12) (mc_volatility / 100 / sqrt 12)
                        (nat (mc_years * 12)) g i) = nat (mc_years * 12) \<and>
              length (mc_paths res ! i) = nat (mc_years * 12) + 1 \<and>
              mc_paths res ! i ! 0 = 0 \<and>
              (\<forall>k < nat (mc_years * 12).
                 mc_paths res ! i ! Suc k =
                   (mc_paths res ! i ! k + of_int mc_inv) *
                   (1 + draws normal (mc_avg_return / 100 / 12) (mc_volatility / 100 / sqrt 12)
                          (nat (mc_years * 12)) g i ! k)) \<and>
              terminals res ! i = last (mc_paths res ! i))"
proof -
  let ?n = "nat (mc_years * 12)"
  let ?d = "draws normal (mc_avg_return / 100 / 12) (mc_volatility / 100 / sqrt 12) ?n g"
  obtain res where res: "run_monte_carlo normal g mc_years mc_inv mc_avg_return mc_volatility = Inr res"
    and ps: "mc_paths res = map (\<lambda>i. fst (build_path mc_inv (?d i))) [0..<simulations]"
    and ts: "terminals res = map (\<lambda>i. snd (build_path mc_inv (?d i))) [0..<simulations]"
    using run_monte_carlo_value [OF assms(1,2), of normal g mc_inv mc_avg_return]
    by (auto simp: Let_def)
  have lp: "length (mc_paths res) = 50" and lt: "length (terminals res) = 50"
    by (simp_all add: ps ts simulations_def)
  have ld: "length (?d i) = ?n" for i
    using assms(3) by (simp add: draws_def)
  have each: "length (?d i) = ?n \<and>
              length (mc_paths res ! i) = ?n + 1 \<and>
              mc_paths res ! i ! 0 = 0 \<and>
              (\<forall>k < ?n. mc_paths res ! i ! Suc k =
                   (mc_paths res ! i ! k + of_int mc_inv) * (1 + ?d i ! k)) \<and>
              terminals res ! i = last (mc_paths res ! i)" if "i < 50" for i
  proof -
    have p: "mc_paths res ! i = 0 # path_values mc_inv (?d i) 0"
      using that by (simp add: ps simulations_def build_path_eq)
    have t: "terminals res ! i = last (0 # path_values mc_inv (?d i) 0)"
      using that by (simp add: ts simulations_def build_path_eq)
    have 1: "length (mc_paths res ! i) = ?n + 1"
      using ld [of i] by (simp add: p length_path_values)
    have 2: "mc_paths res ! i ! 0 = 0"
      by (simp add: p)
    have 3: "\<forall>k < ?n. mc_paths res ! i ! Suc k =
                   (mc_paths res ! i ! k + of_int mc_inv) * (1 + ?d i ! k)"
      unfolding p using path_values_nth [of _ "?d i" 0 mc_inv] by (simp only: ld) blast
    have 4: "terminals res ! i = last (mc_paths res ! i)"
      by (simp only: p t)
    from ld 1 2 3 4 show ?thesis by blast
  qed
  from res lp lt each show ?thesis by blast
qed

theorem monte_carlo_paths_witness:
  "(0::int) \<le> 5 \<and> (0::real) \<le> 15 \<and>
   (\<forall>mean std n s. length (fst (constant_sampler mean std n s)) = n) \<and>
   (\<exists>res. run_monte_carlo constant_sampler () 5 25000 12 15 = Inr res \<and>
      length (mc_paths res) = 50 \<and> length (terminals res) = 50 \<and>
      length (mc_paths res ! 0) = 61 \<and>
      mc_paths res ! 0 ! 0 = 0 \<and>
      mc_paths res ! 0 ! 1 = (0 + 25000) * (1 + 12 / 100 / 12) \<and>
      terminals res ! 0 = last (mc_paths res ! 0))"
proof -
  have h1: "(0::int) \<le> 5" and h2: "(0::real) \<le> 15" by simp_all
  have h3: "\<forall>mean std n s. length (fst (constant_sampler mean std n s)) = n"
    by (simp add: constant_sampler_def)
  have d: "draws constant_sampler (12 / 100 / 12) (15 / 100 / sqrt 12) (nat (5 * 12)) () 0 ! 0
             = 12 / 100 / 12"
    by (simp add: draws_def constant_sampler_def)
  obtain res where res: "run_monte_carlo constant_sampler () 5 25000 12 15 = Inr res"
    and lp: "length (mc_paths res) = 50" and lt: "length (terminals res) = 50"
    and each: "\<forall>i<50.
              length (draws constant_sampler (12 / 100 / 12) (15 / 100 / sqrt 12)
                        (nat (5 * 12)) () i) = nat (5 * 12) \<and>
              length (mc_paths res ! i) = nat (5 * 12) + 1 \<and>
              mc_paths res ! i ! 0 = 0 \<and>
              (\<forall>k < nat (5 * 12).
                 mc_paths res ! i ! Suc k =
                   (mc_paths res ! i ! k + of_int 25000) *
                   (1 + draws constant_sampler (12 / 100 / 12) (15 / 100 / sqrt 12)
                          (nat (5 * 12)) () i ! k)) \<and>
              terminals res ! i = last (mc_paths res ! i)"
    using monte_carlo_paths [of 5 15 constant_sampler "()" 25000 12, OF h1 h2 h3] by blast
  from each have e0: "length (mc_paths res ! 0) = nat (5 * 12) + 1"
      "mc_paths res ! 0 ! 0 = 0"
      "\<forall>k < nat (5 * 12).
                 mc_paths res ! 0 ! Suc k =
                   (mc_paths res ! 0 ! k + of_int 25000) *
                   (1 + draws constant_sampler (12 / 100 / 12) (15 / 100 / sqrt 12)
                          (nat (5 * 12)) () 0 ! k)"
      "terminals res ! 0 = last (mc_paths res ! 0)"
    by simp_all
  from e0(3) have "mc_paths res ! 0 ! Suc 0 =
                   (mc_paths res ! 0 ! 0 + of_int 25000) *
                   (1 + draws constant_sampler (12 / 100 / 12) (15 / 100 / sqrt 12)
                          (nat (5 * 12)) () 0 ! 0)"
    by simp
  then have s1: "mc_paths res ! 0 ! 1 = (0 + 25000) * (1 + 12 / 100 / 12)"
    by (simp only: d e0(2)) simp
  from e0(1) have l0: "length (mc_paths res ! 0) = 61" by simp
  from h1 h2 h3 res lp lt l0 e0(2) s1 e0(4) show ?thesis by blast
qed

text \<open>
  C3. For a number of years and a volatility that are not negative, whatever the
  sampler draws, the run returns 50 terminal values; the reported median is the mean
  of the two middle values (positions 24 and 25, counted from 0) of the sorted 50; the
  reported worst and best cases are the least and the greatest terminal value; and
  worst \<open>\<le>\<close> median \<open>\<le>\<close> best.
\<close>

theorem monte_carlo_summary:
  assumes "0 \<le> mc_years" and "0 \<le> mc_volatility"
  shows "\<exists>res med. run_monte_carlo normal g mc_years mc_inv mc_avg_return mc_volatility = Inr res \<and>
           length (terminals res) = 50 \<and>
           median_case res = Some med \<and>
           med = (sort (terminals res) ! 24 + sort (terminals res) ! 25) / 2 \<and>
           worst_case res = Min (set (terminals res)) \<and>
           best_case res = Max (set (terminals res)) \<and>
           worst_case res \<le> med \<and> med \<le> best_case res"
proof -
  obtain res where res: "run_monte_carlo normal g mc_years mc_inv mc_avg_return mc_volatility = Inr res"
    and len: "length (terminals res) = 50"
    and lo: "worst_case res = Min (set (terminals res))"
    and hi: "best_case res = Max (set (terminals res))"
    and med: "median_case res = np_median (terminals res)"
    using run_monte_carlo_value [OF assms, of normal g mc_inv mc_avg_return]
    by (auto simp: Let_def simulations_def)
  let ?med = "(sort (terminals res) ! 24 + sort (terminals res) ! 25) / 2"
  have m: "median_case res = Some ?med"
    using np_median_even [of "terminals res" 25] len by (simp add: med)
  have "Min (set (terminals res)) \<le> sort (terminals res) ! 24"
    and "Min (set (terminals res)) \<le> sort (terminals res) ! 25"
    and "sort (terminals res) ! 24 \<le> Max (set (terminals res))"
    and "sort (terminals res) ! 25 \<le> Max (set (terminals res))"
    using len by (simp_all add: sort_nth_bounds)
  then have "Min (set (terminals res)) \<le> ?med" and "?med \<le> Max (set (terminals res))"
    by simp_all
  then have "worst_case res \<le> ?med" and "?med \<le> best_case res"
    by (simp_all only: lo hi)
  with res len m lo hi show ?thesis by blast
qed

theorem monte_carlo_summary_witness:
  "(0::int) \<le> 15 \<and> (0::real) \<le> 15 \<and>
   (\<exists>res med. run_monte_carlo constant_sampler () 15 25000 12 15 = Inr res \<and>
      length (terminals res) = 50 \<and>
      median_case res = Some med \<and>
      med = (sort (terminals res) ! 24 + sort (terminals res) ! 25) / 2 \<and>
      worst_case res \<le> med \<and> med \<le> best_case res)"
proof -
  have h1: "(0::int) \<le> 15" and h2: "(0::real) \<le> 15" by simp_all
  from monte_carlo_summary [of 15 15 constant_sampler "()" 25000 12, OF h1 h2]
  show ?thesis using h1 h2 by blast
qed

text \<open>Constant returns: the path recurrence against the SIP recurrence.\<close>

lemma last_path_values_replicate:
  "last (v # path_values c (replicate n m) v) = ((\<lambda>x. (x + of_int c) * (1 + m)) ^^ n) v"
proof (induction n arbitrary: v)
  case 0
  show ?case by simp
next
  case (Suc n)
  have "last (v # path_values c (replicate (Suc n) m) v)
          = last ((v + of_int c) * (1 + m) # path_values c (replicate n m) ((v + of_int c) * (1 + m)))"
    by (simp add: Let_def)
  also have "\<dots> = ((\<lambda>x. (x + of_int c) * (1 + m)) ^^ n) ((v + of_int c) * (1 + m))"
    by (rule Suc.IH)
  also have "\<dots> = ((\<lambda>x. (x + of_int c) * (1 + m)) ^^ Suc n) v"
    by (simp only: funpow_Suc_right comp_def)
  finally show ?case .
qed

lemma path_iterate_sip:
  "((\<lambda>x. (x + of_int c) * (1 + m)) ^^ n) 0 = (1 + m) * current_value (sip_loop c m i n)"
proof (induction n)
  case 0
  show ?case by (simp add: sip_loop_0 sip_init_def)
next
  case (Suc n)
  then show ?case
    by (simp add: current_value_sip_loop_Suc algebra_simps)
qed

lemma terminal_constant_returns:
  "snd (build_path c (replicate n m)) = (1 + m) * current_value (sip_loop c m i n)"
  by (simp only: build_path_eq snd_conv last_path_values_replicate path_iterate_sip)

lemma constant_sampler_terminals:
  assumes "0 \<le> mc_years"
  shows "map_sum id terminals (run_monte_carlo constant_sampler () mc_years c avg 0)
           = Inr (replicate 50 (snd (build_path c (replicate (nat (mc_years * 12)) (avg / 100 / 12)))))"
proof -
  have z: "(0::real) \<le> 0" by simp
  have d: "draws constant_sampler m sd n () i = replicate n m" for m sd n i
    by (simp add: draws_def constant_sampler_def)
  show ?thesis
    unfolding run_monte_carlo_value [OF assms z] Let_def d
    by (simp add: simulations_def map_replicate_const)
qed

lemma project_sip_final_val:
  assumes "1 \<le> time_period"
  shows "map_sum id final_val (project_sip c rate time_period ia ta)
           = Inr (current_value (sip_loop c (rate / 100 / 12) (if ia then 6 else 0)
                    (nat (time_period * 12))))"
  unfolding project_sip_value [OF assms] Let_def by simp

lemma one_period_apart:
  fixes p :: real
  assumes "1 < p"
  shows "25000 * ((p - 1) / (1 / 100)) * (101 / 100) \<noteq> 25000 * ((p - 1) / (1 / 100))"
  using assms by simp

text \<open>
  C9, as stated, read against the SIP projector of tab 1: with a sampler that returns
  the mean at every draw, a volatility of 0, 25000 a month at 12 percent over 5 years,
  all 50 terminal values are \<open>25000 \<times> ((1.01^60 - 1) / 0.01) \<times> 1.01\<close>, while the SIP
  projector on the same contribution, rate and duration ends at
  \<open>25000 \<times> ((1.01^60 - 1) / 0.01)\<close>. The two differ.
\<close>

theorem zero_volatility_not_sip_counterexample:
  "map_sum id terminals (run_monte_carlo constant_sampler () 5 25000 12 0)
     = Inr (replicate 50 (25000 * (((101 / 100) ^ 60 - 1) / (1 / 100)) * (101 / 100))) \<and>
   map_sum id final_val (project_sip 25000 12 5 False False)
     = Inr (25000 * (((101 / 100) ^ 60 - 1) / (1 / 100))) \<and>
   25000 * (((101 / 100) ^ 60 - 1) / (1 / 100)) * (101 / 100)
     \<noteq> (25000 * (((101 / 100) ^ 60 - 1) / (1 / 100)) :: real)"
proof -
  have y: "(0::int) \<le> 5" and y1: "(1::int) \<le> 5" by simp_all
  have n: "nat (5 * 12) = 60" by simp
  have m: "(12::real) / 100 / 12 = 1 / 100" by simp
  have m1: "(1::real) + 1 / 100 = 101 / 100" by simp
  have c: "real_of_int 25000 = 25000" by simp
  have r: "(1::real) / 100 \<noteq> 0" by simp
  have cv: "current_value (sip_loop 25000 (1 / 100) i 60)
              = 25000 * (((101 / 100) ^ 60 - 1) / (1 / 100))" for i
    using current_value_closed_form [OF r, of 25000 i 60] by (simp only: m1 c)
  have t: "snd (build_path 25000 (replicate 60 (1 / 100)))
             = 25000 * (((101 / 100) ^ 60 - 1) / (1 / 100)) * (101 / 100)"
    using terminal_constant_returns [of 25000 60 "1 / 100" 0]
    by (simp only: cv m1 mult.commute)
  have a: "map_sum id terminals (run_monte_carlo constant_sampler () 5 25000 12 0)
     = Inr (replicate 50 (25000 * (((101 / 100) ^ 60 - 1) / (1 / 100)) * (101 / 100)))"
    using constant_sampler_terminals [OF y, of 25000 12] by (simp only: n m t)
  have b: "map_sum id final_val (project_sip 25000 12 5 False False)
     = Inr (25000 * (((101 / 100) ^ 60 - 1) / (1 / 100)))"
    using project_sip_final_val [OF y1, of 25000 12 False False] by (simp only: n m cv)
  have "(1::real) < (101 / 100) ^ 60"
    by (rule one_less_power) simp_all
  then have c: "25000 * (((101 / 100) ^ 60 - 1) / (1 / 100)) * (101 / 100)
     \<noteq> (25000 * (((101 / 100) ^ 60 - 1) / (1 / 100)) :: real)"
    by (rule one_period_apart)
  from a b c show ?thesis by blast
qed

text \<open>
  C9, amended. Given a sampler that returns the mean at every draw when the standard
  deviation is 0, a volatility of 0 and at least one year: every one of the 50
  simulations produces the same path, the path built from constant returns equal to
  the monthly mean; all 50 terminal values are equal; and the common terminal value is
  \<open>1 + monthlyMean\<close> times the final value of the SIP projector for the same
  contribution, annual rate and duration. The simulator adds the contribution before
  the month's growth, the SIP loop after it.
\<close>

theorem zero_volatility_paths:
  assumes "1 \<le> mc_years"
      and "\<forall>mean n s. fst (normal mean 0 n s) = replicate n mean"
  shows "\<exists>res sip.
           run_monte_carlo normal g mc_years mc_inv mc_avg_return 0 = Inr res \<and>
           (\<forall>i<50. mc_paths res ! i =
                      fst (build_path mc_inv (replicate (nat (mc_years * 12)) (mc_avg_return / 100 / 12)))) \<and>
           (\<forall>i<50. terminals res ! i = terminals res ! 0) \<and>
           project_sip mc_inv mc_avg_return mc_years inflation_adj tax_adj = Inr sip \<and>
           terminals res ! 0 = (1 + mc_avg_return / 100 / 12) * final_val sip"
proof -
  let ?n = "nat (mc_years * 12)"
  let ?m = "mc_avg_return / 100 / 12"
  let ?i = "if inflation_adj then 6 else (0::real)"
  have y: "0 \<le> mc_years" using assms(1) by simp
  have z: "(0::real) \<le> 0" by simp
  have d: "draws normal ?m (0 / 100 / sqrt 12) ?n g i = replicate ?n ?m" for i
    using assms(2) by (simp add: draws_def)
  obtain res where res: "run_monte_carlo normal g mc_years mc_inv mc_avg_return 0 = Inr res"
    and ps: "mc_paths res = map (\<lambda>i. fst (build_path mc_inv (replicate ?n ?m))) [0..<simulations]"
    and ts: "terminals res = map (\<lambda>i. snd (build_path mc_inv (replicate ?n ?m))) [0..<simulations]"
    using run_monte_carlo_value [OF y z, of normal g mc_inv mc_avg_return]
    by (simp only: Let_def d) auto
  obtain sip where sip: "project_sip mc_inv mc_avg_return mc_years inflation_adj tax_adj = Inr sip"
    and fv: "final_val sip = current_value (sip_loop mc_inv ?m ?i ?n)"
    using project_sip_value [OF assms(1), of mc_inv mc_avg_return inflation_adj tax_adj]
    by (auto simp: Let_def)
  have 1: "\<forall>i<50. mc_paths res ! i = fst (build_path mc_inv (replicate ?n ?m))"
    by (simp add: ps simulations_def)
  have t: "terminals res ! i = snd (build_path mc_inv (replicate ?n ?m))" if "i < 50" for i
    using that by (simp add: ts simulations_def)
  have 2: "\<forall>i<50. terminals res ! i = terminals res ! 0"
    by (simp add: t)
  have 3: "terminals res ! 0 = (1 + ?m) * final_val sip"
    unfolding fv by (simp only: t [of 0] terminal_constant_returns [where i = ?i])
  from res 1 2 sip 3 show ?thesis by blast
qed

theorem zero_volatility_paths_witness:
  "(1::int) \<le> 5 \<and>
   (\<forall>mean n s. fst (constant_sampler mean 0 n s) = replicate n mean) \<and>
   (\<exists>res sip.
      run_monte_carlo constant_sampler () 5 25000 12 0 = Inr res \<and>
      mc_paths res ! 49 = fst (build_path 25000 (replicate (nat (5 * 12)) (12 / 100 / 12))) \<and>
      terminals res ! 49 = terminals res ! 0 \<and>
      project_sip 25000 12 5 False False = Inr sip \<and>
      terminals res ! 0 = (1 + 12 / 100 / 12) * final_val sip)"
proof -
  have h1: "(1::int) \<le> 5" by simp
  have h2: "\<forall>mean n s. fst (constant_sampler mean 0 n s) = replicate n mean"
    by (simp add: constant_sampler_def)
  have lt: "(49::nat) < 50" by simp
  obtain res sip where res: "run_monte_carlo constant_sampler () 5 25000 12 0 = Inr res"
    and ps: "\<forall>i<50. mc_paths res ! i =
                      fst (build_path 25000 (replicate (nat (5 * 12)) (12 / 100 / 12)))"
    and ts: "\<forall>i<50. terminals res ! i = terminals res ! 0"
    and sip: "project_sip 25000 12 5 False False = Inr sip"
    and eq: "terminals res ! 0 = (1 + 12 / 100 / 12) * final_val sip"
    using zero_volatility_paths [of 5 constant_sampler "()" 25000 12 False False, OF h1 h2] by blast
  from ps lt have p49: "mc_paths res ! 49 = fst (build_path 25000 (replicate (nat (5 * 12)) (12 / 100 / 12)))"
    by blast
  from ts lt have t49: "terminals res ! 49 = terminals res ! 0"
    by blast
  from h1 h2 res p49 t49 sip eq show ?thesis by blast
qed

section \<open>Tab 3: cost of delay\<close>

text \<open>Powers that cannot overflow, and the computation as a value where they cannot.\<close>

lemma float_max_less: "float_max < 2 ^ 1024"
proof -
  have "float_max < 2 ^ 53 * 2 ^ 971"
    unfolding float_max_def by (rule mult_strict_right_mono) simp_all
  also have "(2::real) ^ 53 * 2 ^ 971 = 2 ^ 1024"
    by (simp flip: power_add)
  finally show ?thesis .
qed

lemma float_max_ge: "2 ^ 480 \<le> float_max"
proof -
  have "(2::real) ^ 480 \<le> 2 ^ 971"
    by (rule power_increasing) simp_all
  also have "\<dots> = 1 * 2 ^ 971" by simp
  also have "\<dots> \<le> (2 ^ 53 - 1) * 2 ^ 971"
    by (rule mult_right_mono) simp_all
  finally show ?thesis by (simp only: float_max_def)
qed

lemma pow_no_overflow:
  fixes x :: real
  assumes "\<bar>x\<bar> \<le> 2" and "n \<le> 480"
  shows "\<not> float_max < \<bar>x ^ n\<bar>"
proof -
  have "\<bar>x ^ n\<bar> = \<bar>x\<bar> ^ n" by (rule power_abs)
  also have "\<dots> \<le> 2 ^ n" using assms(1) by (intro power_mono) simp_all
  also have "\<dots> \<le> 2 ^ 480" using assms(2) by (intro power_increasing) simp_all
  also have "\<dots> \<le> float_max" by (rule float_max_ge)
  finally show ?thesis by simp
qed


lemma annuity_due_float_value:
  assumes "rate \<noteq> 0" and "0 \<le> months" and "\<not> float_max < \<bar>(1 + rate) ^ nat months\<bar>"
  shows "annuity_due_float amount rate months
           = Inr (amount * (((1 + rate) ^ nat months - 1) / rate) * (1 + rate))"
  using assms by (simp add: annuity_due_float_def annuity_due_def py_pow_nonneg py_div_def)

lemma annuity_due_float_overflow:
  assumes "0 \<le> months" and "float_max < \<bar>(1 + rate) ^ nat months\<bar>"
  shows "annuity_due_float amount rate months = Inl OverflowError"
  using assms by (simp add: annuity_due_float_def py_pow_nonneg)

lemma compute_delay_cost_value:
  assumes "delay_ret \<noteq> 0" and "\<bar>delay_ret\<bar> \<le> 1200"
      and "0 \<le> delay_years" and "delay_years \<le> delay_duration" and "delay_duration \<le> 40"
  shows "compute_delay_cost delay_inv delay_ret delay_duration delay_years =
           Inr \<lparr>corpus_a = of_int delay_inv *
                    (((1 + delay_ret / 100 / 12) ^ nat (delay_duration * 12) - 1) /
                     (delay_ret / 100 / 12)) * (1 + delay_ret / 100 / 12),
                corpus_b = of_int delay_inv *
                    (((1 + delay_ret / 100 / 12) ^ nat ((delay_duration - delay_years) * 12) - 1) /
                     (delay_ret / 100 / 12)) * (1 + delay_ret / 100 / 12),
                loss = of_int delay_inv *
                    (((1 + delay_ret / 100 / 12) ^ nat (delay_duration * 12) - 1) /
                     (delay_ret / 100 / 12)) * (1 + delay_ret / 100 / 12)
                  - of_int delay_inv *
                    (((1 + delay_ret / 100 / 12) ^ nat ((delay_duration - delay_years) * 12) - 1) /
                     (delay_ret / 100 / 12)) * (1 + delay_ret / 100 / 12)\<rparr>"
proof -
  let ?r = "delay_ret / 100 / 12"
  have r: "?r \<noteq> 0" using assms(1) by simp
  have "\<bar>?r\<bar> \<le> 1" using assms(2) by simp
  then have b: "\<bar>1 + ?r\<bar> \<le> 2" by (simp add: abs_le_iff)
  have ma: "0 \<le> delay_duration * 12" and na: "nat (delay_duration * 12) \<le> 480"
    using assms(3,4,5) by simp_all
  have mb: "0 \<le> (delay_duration - delay_years) * 12"
    and nb: "nat ((delay_duration - delay_years) * 12) \<le> 480"
    using assms(3,4,5) by simp_all
  note va = annuity_due_float_value [OF r ma pow_no_overflow [OF b na]]
  note vb = annuity_due_float_value [OF r mb pow_no_overflow [OF b nb]]
  show ?thesis
    unfolding compute_delay_cost_def Let_def
    by (simp only: va vb sum.case)
qed

text \<open>
  C6. The claim gives corpus_a, corpus_b and a loss of at least zero for every rate at
  or above zero. At the rate 0, which the rate input of this tab delivers, the script
  has neither corpus nor loss: the annuity expression divides by the rate and the
  computation ends in ZeroDivisionError. It is the defect of C4, met through this tab.
\<close>

theorem delay_cost_zero_rate_raises:
  "compute_delay_cost 25000 0 20 5 = Inl ZeroDivisionError"
proof -
  have "\<not> float_max < \<bar>(1::real) ^ nat (20 * 12)\<bar>"
    by (rule pow_no_overflow) simp_all
  then have "annuity_due_float 25000 0 (20 * 12) = Inl ZeroDivisionError"
    by (simp add: annuity_due_float_def annuity_due_def py_pow_nonneg py_div_def)
  then show ?thesis
    by (simp add: compute_delay_cost_def)
qed

text \<open>
  C5, as stated: with the delay equal to the duration (both 10 years, which the two
  sliders allow) the delay-cost computation rejects nothing. It returns a comparison
  with corpus_b = 0 and the loss equal to corpus_a.
\<close>

theorem delay_equal_duration_counterexample:
  "compute_delay_cost 25000 12 10 10 =
     Inr \<lparr>corpus_a = 25000 * (((101 / 100) ^ 120 - 1) / (1 / 100)) * (101 / 100),
          corpus_b = 0,
          loss = 25000 * (((101 / 100) ^ 120 - 1) / (1 / 100)) * (101 / 100)\<rparr>"
proof -
  have h: "(12::real) \<noteq> 0" "\<bar>12::real\<bar> \<le> 1200" "(0::int) \<le> 10" "(10::int) \<le> 10" "(10::int) \<le> 40"
    by simp_all
  show ?thesis
    unfolding compute_delay_cost_value [OF h, of 25000] by simp
qed

lemma compounding_overflows: "float_max < \<bar>(1 + 5000 / 100 / 12 :: real) ^ nat (40 * 12)\<bar>"
proof -
  have "float_max < 2 ^ 1024" by (rule float_max_less)
  also have "(2::real) ^ 1024 \<le> 2 ^ 1080"
    by (rule power_increasing) simp_all
  also have "(2::real) ^ 1080 = (2 ^ 9) ^ 120"
    by (simp flip: power_mult)
  also have "\<dots> \<le> (5 ^ 4) ^ 120"
    by (rule power_mono) simp_all
  also have "\<dots> = (5::real) ^ 480"
    by (simp flip: power_mult)
  also have "\<dots> \<le> (31 / 6) ^ 480"
    by (rule power_mono) simp_all
  finally have "float_max < (31 / 6 :: real) ^ 480" .
  moreover have "(1 + 5000 / 100 / 12 :: real) = 31 / 6" by simp
  moreover have "nat (40 * 12) = 480" by simp
  moreover have "\<bar>(31 / 6 :: real) ^ 480\<bar> = (31 / 6) ^ 480"
    by (rule abs_of_nonneg) (rule zero_le_power, simp)
  ultimately show ?thesis by (simp only:)
qed

text \<open>
  C5, amended. No calculator validates an input, and none has an error for a rejected
  parameter; inputs are used as they come and never clamped.
  \<^item> The delay-cost computation returns a comparison for every contribution of
    magnitude below \<open>2^53\<close>, positive or not, every annual rate of magnitude between
    \<open>10^-6\<close> and 1200 percent, and every delay from 0 up to the duration (at most 40
    years). With the delay equal to the duration, the only case of a delay at or
    beyond the duration that the sliders allow, corpus_b is 0 and the loss is
    corpus_a.
  \<^item> A rate whose compounding over the duration exceeds the largest float is not
    rejected before the computation either: the power raises OverflowError.
  \<^item> The goal computation returns a result for every current cost and every monthly
    saving, positive or not, whenever the return rate is not zero and the years are
    not negative.
\<close>

theorem delay_cost_no_validation:
  "(1 / 10 ^ 6 \<le> \<bar>delay_ret\<bar> \<and> \<bar>delay_ret\<bar> \<le> 1200 \<and> \<bar>delay_inv\<bar> < 2 ^ 53 \<and>
    0 \<le> delay_years \<and> delay_years \<le> delay_duration \<and> delay_duration \<le> 40 \<longrightarrow>
      (\<exists>r. compute_delay_cost delay_inv delay_ret delay_duration delay_years = Inr r \<and>
           (delay_years = delay_duration \<longrightarrow> corpus_b r = 0 \<and> loss r = corpus_a r))) \<and>
   (0 \<le> duration \<and> float_max < \<bar>(1 + ret / 100 / 12) ^ nat (duration * 12)\<bar> \<longrightarrow>
      compute_delay_cost amount ret duration years = Inl OverflowError) \<and>
   (goal_return \<noteq> 0 \<and> 0 \<le> years_to_buy \<longrightarrow>
      (\<exists>g. compute_goal_gap current_cost years_to_buy item_inflation monthly_savings_goal
             goal_return = Inr g))"
proof (intro conjI impI)
  assume h: "1 / 10 ^ 6 \<le> \<bar>delay_ret\<bar> \<and> \<bar>delay_ret\<bar> \<le> 1200 \<and> \<bar>delay_inv\<bar> < 2 ^ 53 \<and>
    0 \<le> delay_years \<and> delay_years \<le> delay_duration \<and> delay_duration \<le> 40"
  then have nz: "delay_ret \<noteq> 0" by auto
  from h have "\<bar>delay_ret\<bar> \<le> 1200" "0 \<le> delay_years" "delay_years \<le> delay_duration"
      "delay_duration \<le> 40"
    by simp_all
  note v = compute_delay_cost_value [OF nz this, of delay_inv]
  show "\<exists>r. compute_delay_cost delay_inv delay_ret delay_duration delay_years = Inr r \<and>
           (delay_years = delay_duration \<longrightarrow> corpus_b r = 0 \<and> loss r = corpus_a r)"
    unfolding v by auto
next
  assume h: "0 \<le> duration \<and> float_max < \<bar>(1 + ret / 100 / 12) ^ nat (duration * 12)\<bar>"
  then have "0 \<le> duration * 12" by simp
  from annuity_due_float_overflow [OF this, of "ret / 100 / 12" "of_int amount"] h
  show "compute_delay_cost amount ret duration years = Inl OverflowError"
    by (simp add: compute_delay_cost_def)
next
  assume h: "goal_return \<noteq> 0 \<and> 0 \<le> years_to_buy"
  then have r: "goal_return / 100 / 12 \<noteq> 0" and m: "0 \<le> years_to_buy * 12" by simp_all
  have a: "annuity_due (of_int monthly_savings_goal) (goal_return / 100 / 12) (years_to_buy * 12)
      = Inr (of_int monthly_savings_goal *
                (((1 + goal_return / 100 / 12) ^ nat (years_to_buy * 12) - 1) / (goal_return / 100 / 12)) *
                (1 + goal_return / 100 / 12))"
    using r m by (simp add: annuity_due_def py_pow_nonneg py_div_def)
  from h have y: "0 \<le> years_to_buy" by simp
  show "\<exists>g. compute_goal_gap current_cost years_to_buy item_inflation monthly_savings_goal
             goal_return = Inr g"
    unfolding compute_goal_gap_def Let_def
    by (simp only: py_pow_nonneg [OF y] a sum.case) simp
qed

theorem delay_cost_no_validation_witness:
  "((1 / 10 ^ 6 \<le> \<bar>12::real\<bar> \<and> \<bar>12::real\<bar> \<le> 1200 \<and> \<bar>25000::int\<bar> < 2 ^ 53 \<and>
     (0::int) \<le> 10 \<and> (10::int) \<le> 10 \<and> (10::int) \<le> 40) \<and>
    (\<exists>r. compute_delay_cost 25000 12 10 10 = Inr r \<and> corpus_b r = 0 \<and> loss r = corpus_a r)) \<and>
   (((0::int) \<le> 40 \<and> float_max < \<bar>(1 + 5000 / 100 / 12 :: real) ^ nat (40 * 12)\<bar>) \<and>
    compute_delay_cost 25000 5000 40 5 = Inl OverflowError) \<and>
   (((10::real) \<noteq> 0 \<and> (0::int) \<le> 5) \<and>
    (\<exists>g. compute_goal_gap (- 4000000) 5 5 (- 50000) 10 = Inr g))"
proof -
  have h1: "1 / 10 ^ 6 \<le> \<bar>12::real\<bar> \<and> \<bar>12::real\<bar> \<le> 1200 \<and> \<bar>25000::int\<bar> < 2 ^ 53 \<and>
     (0::int) \<le> 10 \<and> (10::int) \<le> 10 \<and> (10::int) \<le> 40"
    by simp
  have h2: "(0::int) \<le> 40 \<and> float_max < \<bar>(1 + 5000 / 100 / 12 :: real) ^ nat (40 * 12)\<bar>"
    using compounding_overflows by simp
  have h3: "(10::real) \<noteq> 0 \<and> (0::int) \<le> 5" by simp
  note t = delay_cost_no_validation [of 12 25000 10 10 40 5000 25000 5 10 5 "- 4000000" 5 "- 50000"]
  from t h1 have "\<exists>r. compute_delay_cost 25000 12 10 10 = Inr r \<and>
           ((10::int) = 10 \<longrightarrow> corpus_b r = 0 \<and> loss r = corpus_a r)"
    by blast
  then have c1: "\<exists>r. compute_delay_cost 25000 12 10 10 = Inr r \<and> corpus_b r = 0 \<and> loss r = corpus_a r"
    by simp
  from t h2 have c2: "compute_delay_cost 25000 5000 40 5 = Inl OverflowError"
    by blast
  from t h3 have c3: "\<exists>g. compute_goal_gap (- 4000000) 5 5 (- 50000) 10 = Inr g"
    by blast
  from h1 c1 h2 c2 h3 c3 show ?thesis by blast
qed

section \<open>Tab 4: goal planner\<close>

text \<open>
  C8. For a return rate other than zero (the slider runs from 5 to 15) and a number of
  years that is not negative (the slider runs from 1 to 15), the goal computation
  returns: the future cost \<open>currentCost \<times> (1 + itemInflation/100)^years\<close>; the future
  savings, which are the annuity expression on the monthly savings at the monthly
  return rate over \<open>years \<times> 12\<close> periods; the gap, savings minus cost; and the verdict,
  true exactly when the gap is at least zero.
\<close>

theorem goal_gap_result:
  assumes "goal_return \<noteq> 0" and "0 \<le> years_to_buy"
  shows "\<exists>r. compute_goal_gap current_cost years_to_buy item_inflation monthly_savings_goal
                goal_return = Inr r \<and>
             future_cost r = of_int current_cost * (1 + of_int item_inflation / 100) ^ nat years_to_buy \<and>
             annuity_due (of_int monthly_savings_goal) (goal_return / 100 / 12) (years_to_buy * 12)
               = Inr (future_savings r) \<and>
             future_savings r = of_int monthly_savings_goal *
                (((1 + goal_return / 100 / 12) ^ nat (years_to_buy * 12) - 1) / (goal_return / 100 / 12)) *
                (1 + goal_return / 100 / 12) \<and>
             gap r = future_savings r - future_cost r \<and>
             (affordable r \<longleftrightarrow> 0 \<le> gap r)"
proof -
  have r: "goal_return / 100 / 12 \<noteq> 0" using assms(1) by simp
  have m: "0 \<le> years_to_buy * 12" using assms(2) by simp
  have a: "annuity_due (of_int monthly_savings_goal) (goal_return / 100 / 12) (years_to_buy * 12)
      = Inr (of_int monthly_savings_goal *
                (((1 + goal_return / 100 / 12) ^ nat (years_to_buy * 12) - 1) / (goal_return / 100 / 12)) *
                (1 + goal_return / 100 / 12))"
    using r m by (simp add: annuity_due_def py_pow_nonneg py_div_def)
  show ?thesis
    unfolding compute_goal_gap_def Let_def
    by (simp only: py_pow_nonneg [OF assms(2)] a sum.case) simp
qed

theorem goal_gap_result_witness:
  "(10::real) \<noteq> 0 \<and> (0::int) \<le> 5 \<and>
   (\<exists>r. compute_goal_gap 4000000 5 5 50000 10 = Inr r \<and>
        future_cost r = 4000000 * (105 / 100) ^ 5 \<and>
        gap r = future_savings r - future_cost r \<and>
        (affordable r \<longleftrightarrow> 0 \<le> gap r))"
proof -
  obtain r where "compute_goal_gap 4000000 5 5 50000 10 = Inr r"
    and "future_cost r = of_int 4000000 * (1 + of_int 5 / 100) ^ nat 5"
    and "gap r = future_savings r - future_cost r" and "affordable r \<longleftrightarrow> 0 \<le> gap r"
    using goal_gap_result [of 10 5 4000000 5 50000] by auto
  then show ?thesis by (intro conjI exI [of _ r]) simp_all
qed

end
